theory Spec2Isabelle
  imports Main "HOL-Library.Word"
begin

section \<open>JavaScript values seen by the JSGI connector\<close>

text \<open>
  The connector (modules/ringo/jsgi/connector.js) is untyped JavaScript. The values it
  inspects are modelled by a datatype. Numbers are the integers together with the three
  non-finite values; byte strings (instances of \<open>Binary\<close>) are lists of octets.
\<close>

type_synonym bytes = "8 word list"

datatype jsnum = Finite int | PosInf | NegInf | NaN

text \<open>
  A function value is represented by what the connector can observe of it: the parts it
  hands, in order, to the callback it is called with. That is all \<open>writeBody\<close> sees of
  \<open>body.forEach\<close> and \<open>body.close\<close>. A part is either a \<open>Binary\<close> chunk or any
  other value.
\<close>

datatype jsval =
    Undefined
  | Null
  | Bool bool
  | Num jsnum
  | Str string
  | Arr "jsval list"
  | Obj "(string \<times> jsval) list"
  | Func "part list"
and part =
    Chunk bytes
  | Val jsval

text \<open>\<open>!v\<close> is \<open>\<not> truthy v\<close>: the falsy values are undefined, null, false, 0, NaN and the empty string.\<close>

fun truthy :: "jsval \<Rightarrow> bool" where
  "truthy Undefined = False"
| "truthy Null = False"
| "truthy (Bool b) = b"
| "truthy (Num (Finite n)) = (n \<noteq> 0)"
| "truthy (Num NaN) = False"
| "truthy (Num PosInf) = True"
| "truthy (Num NegInf) = True"
| "truthy (Str s) = (s \<noteq> [])"
| "truthy (Arr xs) = True"
| "truthy (Obj kvs) = True"
| "truthy (Func ps) = True"

text \<open>Property lookup \<open>o[k]\<close> on an object literal: undefined when the key is absent.\<close>

fun getProp :: "(string \<times> jsval) list \<Rightarrow> string \<Rightarrow> jsval" where
  "getProp [] k = Undefined"
| "getProp ((k', v) # kvs) k = (if k' = k then v else getProp kvs k)"

text \<open>
  \<open>typeof body.forEach == "function"\<close>: arrays iterate their elements, an object
  iterates what its \<open>forEach\<close> function yields, no other modelled value has the method.
  The result is the sequence of parts the iteration passes to its callback.
\<close>

fun forEach_parts :: "jsval \<Rightarrow> part list option" where
  "forEach_parts (Arr xs) = Some (map Val xs)"
| "forEach_parts (Obj kvs) = (case getProp kvs ''forEach'' of Func ps \<Rightarrow> Some ps | _ \<Rightarrow> None)"
| "forEach_parts _ = None"

text \<open>\<open>typeof body.close == "function"\<close>, with the parts the close hook hands to the writer.\<close>

fun close_parts :: "jsval \<Rightarrow> part list option" where
  "close_parts (Obj kvs) = (case getProp kvs ''close'' of Func ps \<Rightarrow> Some ps | _ \<Rightarrow> None)"
| "close_parts _ = None"

section \<open>String.prototype.split on a single separator character\<close>

fun split :: "char \<Rightarrow> string \<Rightarrow> string list" where
  "split sep [] = [[]]"
| "split sep (c # cs) =
     (if c = sep then [] # split sep cs
      else (c # hd (split sep cs)) # tl (split sep cs))"

text \<open>\<open>Array.prototype.join\<close> with a separator character, the inverse of \<open>split\<close>.\<close>

fun join :: "char \<Rightarrow> string list \<Rightarrow> string" where
  "join sep [] = []"
| "join sep [w] = w"
| "join sep (w # ws) = w @ sep # join sep ws"

definition newline :: char where
  "newline = CHR ''\<newline>''"

section \<open>The transport\<close>

text \<open>
  The servlet transport is a black box. Its state is the two flags the connector queries,
  the answers the output channel will give to the coming \<open>isReady()\<close> polls, and the log
  of the calls the connector has made on it, oldest first.
\<close>

datatype event =
    SetStatus jsval
  | AddHeader string jsval
  | Write bytes
  | Flush
  | StartAsync
  | SetTimeout jsnum
  | AddListener
  | SetWriteListener
  | Complete

record transport =
  asyncStarted :: bool
  committed :: bool
  readiness :: "bool list"
  calls :: "event list"

definition emit :: "event \<Rightarrow> transport \<Rightarrow> transport" where
  "emit e t = t\<lparr>calls := calls t @ [e]\<rparr>"

section \<open>Response descriptors and errors\<close>

text \<open>
  The response descriptor \<open>{status, headers, body}\<close>. The headers are an object, given
  by its enumerable properties in enumeration order, or absent (undefined or null).
\<close>

type_synonym headers = "(string \<times> jsval) list"

record response =
  status :: jsval
  headers :: "headers option"
  body :: jsval

datatype error =
    InvalidResponse response
  | BodyNotIterable jsval
  | InvalidRequest
  | ModuleNotFound string
  | TypeError

section \<open>Writing headers\<close>

text \<open>
  The callback of \<open>values.forEach\<close> in \<open>writeHeaders\<close>: one \<open>addHeader(key, value)\<close>
  per element.
\<close>

fun addHeaders :: "string \<Rightarrow> jsval list \<Rightarrow> transport \<Rightarrow> transport" where
  "addHeaders key [] t = t"
| "addHeaders key (v # vs) t = addHeaders key vs (emit (AddHeader key v) t)"

text \<open>
  \<open>writeHeaders\<close>: a string value is split at newlines, an array is taken as it is, and
  a value that is neither is skipped (\<open>continue\<close>).
\<close>

fun writeHeaders :: "headers \<Rightarrow> transport \<Rightarrow> transport" where
  "writeHeaders [] t = t"
| "writeHeaders ((key, Str s) # hs) t =
     writeHeaders hs (addHeaders key (map Str (split newline s)) t)"
| "writeHeaders ((key, Arr vs) # hs) t = writeHeaders hs (addHeaders key vs t)"
| "writeHeaders ((key, _) # hs) t = writeHeaders hs t"

section \<open>Writing the body\<close>

text \<open>
  The writer callback of \<open>writeBody\<close>: a \<open>Binary\<close> part is written as it is, and any
  other part is converted by its method \<open>toByteString(charset)\<close>. The method belongs to
  the binary module and is the parameter \<open>enc\<close>: it gives the bytes, or nothing for a
  value that has no such method, where the call is a TypeError.
\<close>

type_synonym encoder = "string option \<Rightarrow> jsval \<Rightarrow> bytes option"

fun writer :: "encoder \<Rightarrow> string option \<Rightarrow> part \<Rightarrow> transport \<Rightarrow> error option \<times> transport" where
  "writer enc charset (Chunk b) t = (None, emit (Write b) t)"
| "writer enc charset (Val v) t =
     (case enc charset v of
        None \<Rightarrow> (Some TypeError, t)
      | Some b \<Rightarrow> (None, emit (Write b) t))"

text \<open>Calling the writer on each part in turn; an exception ends the iteration.\<close>

fun writeParts :: "encoder \<Rightarrow> string option \<Rightarrow> part list \<Rightarrow> transport
    \<Rightarrow> error option \<times> transport" where
  "writeParts enc charset [] t = (None, t)"
| "writeParts enc charset (p # ps) t =
     (case writer enc charset p t of
        (Some e, t') \<Rightarrow> (Some e, t')
      | (None, t') \<Rightarrow> writeParts enc charset ps t')"

definition writeBody :: "encoder \<Rightarrow> jsval \<Rightarrow> string option \<Rightarrow> transport
    \<Rightarrow> error option \<times> transport" where
  "writeBody enc b charset t =
     (if truthy b \<and> forEach_parts b \<noteq> None then
        (case writeParts enc charset (the (forEach_parts b)) t of
           (Some e, t') \<Rightarrow> (Some e, t')
         | (None, t') \<Rightarrow>
             (case close_parts b of
                Some ps \<Rightarrow> writeParts enc charset ps t'
              | None \<Rightarrow> (None, t')))
      else (Some (BodyNotIterable b), t))"

section \<open>Committing a response\<close>

text \<open>
  \<open>writeResponse\<close>. The charset is \<open>getMimeParameter(headers.get("Content-Type"), "charset")\<close>;
  both helpers belong to ringo/utils/http and are taken together as the parameter
  \<open>charsetOf\<close>.
\<close>

definition writeResponse :: "(headers \<Rightarrow> string option) \<Rightarrow> encoder
    \<Rightarrow> jsval \<Rightarrow> headers \<Rightarrow> jsval \<Rightarrow> transport \<Rightarrow> error option \<times> transport" where
  "writeResponse charsetOf enc st hs b t =
     (let t1 = emit (SetStatus st) t;
          t2 = writeHeaders hs t1;
          charset = charsetOf hs
      in writeBody enc b charset t2)"

text \<open>
  Modelled from the spec: \<open>Headers(headers).contains(name)\<close> of ringo/utils/http, which is
  not part of the sources at hand. The spec says that the presence of the header in the
  response headers, with any value, counts.
\<close>

definition Headers_contains :: "headers \<Rightarrow> string \<Rightarrow> bool" where
  "Headers_contains hs name = (name \<in> set (map fst hs))"

definition skipHeader :: string where
  "skipHeader = ''X-JSGI-Skip-Response''"

text \<open>
  \<open>commitResponse\<close>. The outcome is the exception thrown, if any, together with the
  transport as the call leaves it: an exception does not undo the calls made before it.
\<close>

definition commitResponse :: "(headers \<Rightarrow> string option) \<Rightarrow> encoder
    \<Rightarrow> response \<Rightarrow> transport \<Rightarrow> error option \<times> transport" where
  "commitResponse charsetOf enc result t =
     (if asyncStarted t then (None, t)
      else if \<not> truthy (status result) \<or> headers result = None \<or> \<not> truthy (body result)
        then (Some (InvalidResponse result), t)
      else if \<not> committed t \<and> \<not> Headers_contains (the (headers result)) skipHeader
        then writeResponse charsetOf enc (status result) (the (headers result)) (body result) t
      else (None, t))"

section \<open>The write queue and the drain routine\<close>

text \<open>
  A \<open>WriteListenerImpl\<close>: its queue of byte chunks, oldest first, and its auto-flush
  flag.
\<close>

record writeListener =
  queue :: "bytes list"
  autoFlush :: bool

text \<open>\<open>queue.poll()\<close>: the head of the queue, removed, or null when the queue is empty.\<close>

fun poll :: "bytes list \<Rightarrow> bytes option \<times> bytes list" where
  "poll [] = (None, [])"
| "poll (d # q) = (Some d, q)"

text \<open>
  \<open>outStream.isReady()\<close>: the channel's next answer; a channel with no answer left is
  not ready.
\<close>

definition isReady :: "transport \<Rightarrow> bool \<times> transport" where
  "isReady t = (case readiness t of [] \<Rightarrow> (False, t) | r # rs \<Rightarrow> (r, t\<lparr>readiness := rs\<rparr>))"

text \<open>
  The loop of \<open>onWritePossible\<close>. The queue is tested first and the channel is polled only
  when the queue is not empty. A chunk is an object, so \<open>!data\<close> holds only for the
  null of an empty queue.
\<close>

function drain :: "bytes list \<Rightarrow> transport \<Rightarrow> bytes list \<times> transport" where
  "drain q t =
     (if q = [] then (q, t)
      else if \<not> fst (isReady t) then (q, snd (isReady t))
      else (case fst (poll q) of
              None \<Rightarrow> (snd (poll q), snd (isReady t))
            | Some d \<Rightarrow> drain (snd (poll q)) (emit (Write d) (snd (isReady t)))))"
  by pat_completeness auto
termination
  by (relation "measure (\<lambda>(q, t). length q)") (auto simp: neq_Nil_conv)

declare drain.simps [simp del]

definition onWritePossible :: "writeListener \<Rightarrow> transport \<Rightarrow> writeListener \<times> transport" where
  "onWritePossible l t =
     (let (q, t1) = drain (queue l) t;
          l1 = l\<lparr>queue := q\<rparr>
      in if autoFlush l \<and> fst (isReady t1) then (l1, emit Flush (snd (isReady t1)))
         else if autoFlush l then (l1, snd (isReady t1))
         else (l1, t1))"

section \<open>The asynchronous response handle\<close>

text \<open>
  The request descriptor: its transport environment \<open>env\<close>, absent on a request that has
  none; its own property \<open>input\<close>, absent until \<open>initRequest\<close> installs the accessor,
  whose closure variable holds the stream once it has been constructed; and its \<open>jsgi\<close>
  object with the error sink. A stream is named by its allocation number.
\<close>

datatype env = ServletEnv

datatype lazy_input = Lazy "nat option"

datatype sink = Stderr

record jsgi =
  errors :: "sink option"

record request =
  env :: "env option"
  input :: "lazy_input option"
  jsgi :: "jsgi option"

text \<open>The \<open>timeout\<close> argument: left out (undefined), null, or a number.\<close>

datatype timeout_arg = TimeoutOmitted | TimeoutNull | TimeoutNum jsnum

fun isFinite :: "jsnum \<Rightarrow> bool" where
  "isFinite (Finite n) = True"
| "isFinite PosInf = False"
| "isFinite NegInf = False"
| "isFinite NaN = False"

text \<open>\<open>if (timeout != null && isFinite(timeout)) asyncContext.setTimeout(timeout)\<close>\<close>

fun registerTimeout :: "timeout_arg \<Rightarrow> transport \<Rightarrow> transport" where
  "registerTimeout TimeoutOmitted t = t"
| "registerTimeout TimeoutNull t = t"
| "registerTimeout (TimeoutNum n) t = (if isFinite n then emit (SetTimeout n) t else t)"

record handle =
  autoFlushArg :: jsval
  listener :: "writeListener option"

text \<open>
  \<open>AsyncResponse(request, timeout, autoFlush)\<close>; the request is \<open>None\<close> when the
  argument is undefined or null.
\<close>

definition AsyncResponse :: "request option \<Rightarrow> timeout_arg \<Rightarrow> jsval \<Rightarrow> transport
    \<Rightarrow> (error + handle) \<times> transport" where
  "AsyncResponse req timeout af t =
     (case req of
        None \<Rightarrow> (Inl InvalidRequest, t)
      | Some r \<Rightarrow>
          (case env r of
             None \<Rightarrow> (Inl InvalidRequest, t)
           | Some e \<Rightarrow>
               (let t1 = emit StartAsync (t\<lparr>asyncStarted := True\<rparr>);
                    t2 = registerTimeout timeout t1;
                    t3 = emit AddListener t2
                in (Inr \<lparr>autoFlushArg = af, listener = None\<rparr>, t3))))"

text \<open>
  The methods of the handle. \<open>start(status, headers)\<close> sets the status and writes the
  headers, none when the argument is left out. \<open>flush()\<close> flushes the channel when it is
  ready, and \<open>close()\<close> completes the exchange.
\<close>

definition handleStart :: "jsval \<Rightarrow> headers option \<Rightarrow> transport \<Rightarrow> transport" where
  "handleStart st hs t =
     writeHeaders (case hs of None \<Rightarrow> [] | Some h \<Rightarrow> h) (emit (SetStatus st) t)"

definition handleFlush :: "transport \<Rightarrow> transport" where
  "handleFlush t = (if fst (isReady t) then emit Flush (snd (isReady t)) else snd (isReady t))"

definition handleClose :: "transport \<Rightarrow> transport" where
  "handleClose t = emit Complete t"

text \<open>
  The method \<open>write(data, encoding)\<close>. A \<open>Binary\<close> is queued as it is; any other value
  is converted by \<open>String(data).toByteArray(encoding)\<close>, the parameter \<open>conv\<close>. The
  first write creates the listener, queues the chunk and registers the listener with the
  channel; a later one queues the chunk and drains.
\<close>

fun toBinary :: "(jsval \<Rightarrow> string option \<Rightarrow> bytes) \<Rightarrow> part \<Rightarrow> string option \<Rightarrow> bytes" where
  "toBinary conv (Chunk b) encoding = b"
| "toBinary conv (Val v) encoding = conv v encoding"

definition handleWrite :: "(jsval \<Rightarrow> string option \<Rightarrow> bytes) \<Rightarrow> part \<Rightarrow> string option
    \<Rightarrow> handle \<Rightarrow> transport \<Rightarrow> handle \<times> transport" where
  "handleWrite conv data encoding h t =
     (case listener h of
        None \<Rightarrow>
          (h\<lparr>listener := Some \<lparr>queue = [toBinary conv data encoding],
                                autoFlush = (autoFlushArg h = Bool True)\<rparr>\<rparr>,
           emit SetWriteListener t)
      | Some l \<Rightarrow>
          (let (l1, t1) = onWritePossible (l\<lparr>queue := queue l @ [toBinary conv data encoding]\<rparr>) t
           in (h\<lparr>listener := Some l1\<rparr>, t1)))"

section \<open>Request initialisation\<close>

text \<open>
  \<open>initRequest\<close>: nothing is done on a request that has its own \<open>input\<close> property.
  Otherwise the accessor is installed with an empty closure variable, and then the error
  sink is defined on \<open>request.jsgi\<close>, which throws when there is no such object.
\<close>

definition initRequest :: "request \<Rightarrow> error option \<times> request" where
  "initRequest r =
     (if input r \<noteq> None then (None, r)
      else (let r1 = r\<lparr>input := Some (Lazy None)\<rparr>
            in case jsgi r1 of
                 None \<Rightarrow> (Some TypeError, r1)
               | Some j \<Rightarrow> (None, r1\<lparr>jsgi := Some (j\<lparr>errors := Some Stderr\<rparr>)\<rparr>)))"

text \<open>
  Reading \<open>request.input\<close>. The second component of the state counts the streams
  constructed so far and names the next one. A request without the property reads
  undefined (\<open>None\<close>); the accessor constructs the stream when its closure variable is
  still empty, which needs the transport environment, and returns the variable.
\<close>

definition readInput :: "request \<times> nat \<Rightarrow> (error + nat option) \<times> request \<times> nat" where
  "readInput s =
     (case input (fst s) of
        None \<Rightarrow> (Inr None, s)
      | Some (Lazy (Some i)) \<Rightarrow> (Inr (Some i), s)
      | Some (Lazy None) \<Rightarrow>
          (case env (fst s) of
             None \<Rightarrow> (Inl TypeError, s)
           | Some e \<Rightarrow> (Inr (Some (snd s)), (fst s)\<lparr>input := Some (Lazy (Some (snd s)))\<rparr>, Suc (snd s))))"

text \<open>
  The life of a descriptor: initialisations and reads of the input in any order. The run
  returns the streams the reads returned and the final state.
\<close>

datatype req_op = Init | Read

fun run :: "req_op list \<Rightarrow> request \<times> nat \<Rightarrow> nat list \<times> request \<times> nat" where
  "run [] s = ([], s)"
| "run (Init # ops) s = run ops (snd (initRequest (fst s)), snd s)"
| "run (Read # ops) s =
     (case fst (readInput s) of
        Inr (Some i) \<Rightarrow> (i # fst (run ops (snd (readInput s))), snd (run ops (snd (readInput s))))
      | _ \<Rightarrow> run ops (snd (readInput s)))"

section \<open>Resolving applications and composing middleware\<close>

text \<open>
  What \<open>resolve\<close> is given: a module id, an array of such values, a function, or anything
  else (undefined, or an object that is not callable). Functions are values of a type
  \<open>'f\<close>; what a function returns or throws when called with one argument is the
  parameter \<open>call\<close>, and the module registry is the parameter \<open>require\<close>.
\<close>

datatype 'f app =
    NoApp
  | ModuleId string
  | Stack "'f app list"
  | Fn 'f
  | Object

fun truthyApp :: "'f app \<Rightarrow> bool" where
  "truthyApp NoApp = False"
| "truthyApp (ModuleId s) = (s \<noteq> [])"
| "truthyApp (Stack xs) = True"
| "truthyApp (Fn f) = True"
| "truthyApp Object = True"

text \<open>A module is given by its exported properties; one that is not exported reads undefined.\<close>

type_synonym 'f module = "(string \<times> 'f app) list"

fun export :: "'f module \<Rightarrow> string \<Rightarrow> 'f app" where
  "export [] k = NoApp"
| "export ((k', v) # m) k = (if k' = k then v else export m k)"

text \<open>Calling a value: only a function can be called.\<close>

fun callValue :: "('f \<Rightarrow> 'f app \<Rightarrow> error + 'f app) \<Rightarrow> 'f app \<Rightarrow> 'f app \<Rightarrow> error + 'f app" where
  "callValue call (Fn f) x = call f x"
| "callValue call _ x = Inl TypeError"

text \<open>
  \<open>resolve\<close> and \<open>middlewareWrapper\<close>, with \<open>app.reduceRight(middlewareWrapper)\<close>
  written as the recursion \<open>reduceRight\<close>: without an initial value the last element
  starts the accumulation as it is, and an empty array is a TypeError.
\<close>

fun resolve :: "(string \<Rightarrow> error + 'f module) \<Rightarrow> ('f \<Rightarrow> 'f app \<Rightarrow> error + 'f app)
      \<Rightarrow> 'f app \<Rightarrow> error + 'f app"
  and reduceRight :: "(string \<Rightarrow> error + 'f module) \<Rightarrow> ('f \<Rightarrow> 'f app \<Rightarrow> error + 'f app)
      \<Rightarrow> 'f app list \<Rightarrow> error + 'f app"
  and middlewareWrapper :: "(string \<Rightarrow> error + 'f module) \<Rightarrow> ('f \<Rightarrow> 'f app \<Rightarrow> error + 'f app)
      \<Rightarrow> 'f app \<Rightarrow> 'f app \<Rightarrow> error + 'f app"
where
  "resolve require call (ModuleId s) =
     (case require s of
        Inl e \<Rightarrow> Inl e
      | Inr m \<Rightarrow> Inr (if truthyApp (export m ''middleware'') then export m ''middleware''
                       else export m ''handleRequest''))"
| "resolve require call (Stack xs) = reduceRight require call xs"
| "resolve require call NoApp = Inr NoApp"
| "resolve require call (Fn f) = Inr (Fn f)"
| "resolve require call Object = Inr Object"
| "reduceRight require call [] = Inl TypeError"
| "reduceRight require call [x] = Inr x"
| "reduceRight require call (x # y # ys) =
     (case reduceRight require call (y # ys) of
        Inl e \<Rightarrow> Inl e
      | Inr inner \<Rightarrow> middlewareWrapper require call inner x)"
| "middlewareWrapper require call inner outer =
     (case resolve require call outer of
        Inl e \<Rightarrow> Inl e
      | Inr f \<Rightarrow> callValue call f inner)"

text \<open>\<open>middleware.reduceRight(middlewareWrapper, initial)\<close>, with an initial value.\<close>

fun reduceRightFrom :: "(string \<Rightarrow> error + 'f module) \<Rightarrow> ('f \<Rightarrow> 'f app \<Rightarrow> error + 'f app)
      \<Rightarrow> 'f app list \<Rightarrow> 'f app \<Rightarrow> error + 'f app" where
  "reduceRightFrom require call [] initial = Inr initial"
| "reduceRightFrom require call (x # xs) initial =
     (case reduceRightFrom require call xs initial of
        Inl e \<Rightarrow> Inl e
      | Inr inner \<Rightarrow> middlewareWrapper require call inner x)"

text \<open>
  The application \<open>handleRequest\<close> computes before it looks at the environment hook:
  the function object itself, or the export named \<open>functionObj\<close> of the module, resolved
  and wrapped in the module's middleware. The arguments of \<open>reduceRight\<close> are evaluated
  before the call, so an exception of \<open>resolve(app)\<close> comes before the TypeError of a
  \<open>middleware\<close> export that is not an array.
\<close>

datatype 'f funref = FunctionObj 'f | FunctionName string

definition handleRequest_app :: "(string \<Rightarrow> error + 'f module) \<Rightarrow> ('f \<Rightarrow> 'f app \<Rightarrow> error + 'f app)
      \<Rightarrow> string \<Rightarrow> 'f funref \<Rightarrow> error + 'f app" where
  "handleRequest_app require call moduleId functionObj =
     (case functionObj of
        FunctionObj f \<Rightarrow> Inr (Fn f)
      | FunctionName name \<Rightarrow>
          (case require moduleId of
             Inl e \<Rightarrow> Inl e
           | Inr m \<Rightarrow>
               (let app = export m name;
                    middleware = (if truthyApp (export m ''middleware'') then export m ''middleware''
                                  else Stack [])
                in case resolve require call app of
                     Inl e \<Rightarrow> Inl e
                   | Inr h \<Rightarrow>
                       (case middleware of
                          Stack ms \<Rightarrow> reduceRightFrom require call ms h
                        | _ \<Rightarrow> Inl TypeError))))"

section \<open>Observations and sample helpers\<close>

text \<open>The byte chunks written to the output channel, in order, among the calls of a log.\<close>

fun written :: "event list \<Rightarrow> bytes list" where
  "written [] = []"
| "written (Write b # es) = b # written es"
| "written (e # es) = written es"

text \<open>
  Instances of the helper parameters, for evaluating the connector on concrete inputs:
  headers that name no charset, and an encoder that knows strings only and encodes each
  character as its code.
\<close>

definition noCharset :: "headers \<Rightarrow> string option" where
  "noCharset hs = None"

definition latin1 :: encoder where
  "latin1 charset v = (case v of Str s \<Rightarrow> Some (map (\<lambda>c. of_nat (of_char c)) s) | _ \<Rightarrow> None)"

text \<open>The number of consecutive polls, from the next one on, that the channel answers ready.\<close>

definition readyCount :: "bool list \<Rightarrow> nat" where
  "readyCount rs = length (takeWhile (\<lambda>b. b) rs)"

text \<open>
  The callback the channel makes when it becomes writable: \<open>onWritePossible\<close> of the
  registered listener, if one is registered.
\<close>

definition readinessCallback :: "handle \<Rightarrow> transport \<Rightarrow> handle \<times> transport" where
  "readinessCallback h t =
     (case listener h of
        None \<Rightarrow> (h, t)
      | Some l \<Rightarrow>
          (let (l1, t1) = onWritePossible l t
           in (h\<lparr>listener := Some l1\<rparr>, t1)))"

text \<open>The chunks a handle still holds in its queue.\<close>

definition pending :: "handle \<Rightarrow> bytes list" where
  "pending h = (case listener h of None \<Rightarrow> [] | Some l \<Rightarrow> queue l)"

text \<open>
  A registry and functions for evaluating the composition on a concrete input: a function
  is named by the expression that built it, and calling \<open>f\<close> on the function \<open>g\<close>
  gives the function \<open>f(g)\<close>. The module \<open>main\<close> exports the handler \<open>h\<close> as
  \<open>app\<close> and the middleware stack \<open>[m1, m2, m3]\<close>.
\<close>

fun wrapCall :: "string \<Rightarrow> string app \<Rightarrow> error + string app" where
  "wrapCall f (Fn g) = Inr (Fn (f @ ''('' @ g @ '')''))"
| "wrapCall f _ = Inl TypeError"

definition sampleRequire :: "string \<Rightarrow> error + string module" where
  "sampleRequire moduleId =
     (if moduleId = ''main''
      then Inr [(''app'', Fn ''h''), (''middleware'', Stack [Fn ''m1'', Fn ''m2'', Fn ''m3''])]
      else Inl (ModuleNotFound moduleId))"

section \<open>Threads calling write\<close>

text \<open>
  A thread inside the method \<open>write\<close> of a handle whose listener is registered already:
  it adds its chunk to the queue and runs \<open>onWritePossible\<close>. The position of the thread
  names the call of the source it makes next: \<open>queue.add(data)\<close>, \<open>queue.isEmpty()\<close>,
  \<open>outStream.isReady()\<close>, \<open>queue.poll()\<close>, \<open>outStream.write(data)\<close> with the chunk it
  polled, the test of \<open>autoFlush\<close> with its poll of the channel, and \<open>outStream.flush()\<close>.
  The listener and the transport are shared by the threads; the polled chunk is the local
  variable \<open>data\<close> of the thread.
\<close>

datatype pc =
    Enqueue bytes
  | TestEmpty
  | TestReady
  | DoPoll
  | DoWrite bytes
  | FlushCheck
  | DoFlush
  | Done

text \<open>One call of a thread. A poll that finds the queue empty returns null, and the loop breaks.\<close>

fun stepThread :: "pc \<Rightarrow> writeListener \<times> transport \<Rightarrow> pc \<times> writeListener \<times> transport" where
  "stepThread (Enqueue d) (l, t) = (TestEmpty, l\<lparr>queue := queue l @ [d]\<rparr>, t)"
| "stepThread TestEmpty (l, t) = (if queue l = [] then (FlushCheck, l, t) else (TestReady, l, t))"
| "stepThread TestReady (l, t) =
     (if fst (isReady t) then (DoPoll, l, snd (isReady t)) else (FlushCheck, l, snd (isReady t)))"
| "stepThread DoPoll (l, t) =
     (case fst (poll (queue l)) of
        None \<Rightarrow> (FlushCheck, l\<lparr>queue := snd (poll (queue l))\<rparr>, t)
      | Some d \<Rightarrow> (DoWrite d, l\<lparr>queue := snd (poll (queue l))\<rparr>, t))"
| "stepThread (DoWrite d) (l, t) = (TestEmpty, l, emit (Write d) t)"
| "stepThread FlushCheck (l, t) =
     (if autoFlush l \<and> fst (isReady t) then (DoFlush, l, snd (isReady t))
      else if autoFlush l then (Done, l, snd (isReady t))
      else (Done, l, t))"
| "stepThread DoFlush (l, t) = (Done, l, emit Flush t)"
| "stepThread Done (l, t) = (Done, l, t)"

text \<open>How far a position is from the end of the routine, for the termination of a run.\<close>

fun rank :: "pc \<Rightarrow> nat" where
  "rank (Enqueue d) = 10"
| "rank TestEmpty = 5"
| "rank TestReady = 4"
| "rank DoPoll = 3"
| "rank (DoWrite d) = 6"
| "rank FlushCheck = 2"
| "rank DoFlush = 1"
| "rank Done = 0"

text \<open>A thread running alone, from its position to the end of the routine.\<close>

function runThread :: "pc \<times> writeListener \<times> transport \<Rightarrow> writeListener \<times> transport" where
  "runThread (p, l, t) = (if p = Done then (l, t) else runThread (stepThread p (l, t)))"
  by pat_completeness auto
termination
proof (relation "measure (\<lambda>(p, l, t). 4 * length (queue l) + rank p)")
  show "wf (measure (\<lambda>(p, l, t). 4 * length (queue l) + rank p))" by simp
next
  fix p :: pc and l :: writeListener and t :: transport
  assume "p \<noteq> Done"
  then show "(stepThread p (l, t), p, l, t) \<in> measure (\<lambda>(p, l, t). 4 * length (queue l) + rank p)"
    by (cases p; cases "queue l") simp_all
qed

declare runThread.simps [simp del]

text \<open>
  Several threads under a schedule: each entry of the schedule names the thread that makes
  its next call. An entry that names no thread is passed over.
\<close>

fun interleave :: "nat list \<Rightarrow> pc list \<times> writeListener \<times> transport
    \<Rightarrow> pc list \<times> writeListener \<times> transport" where
  "interleave [] c = c"
| "interleave (i # sched) (ps, l, t) =
     (if i < length ps
      then interleave sched
             (ps[i := fst (stepThread (ps ! i) (l, t))], snd (stepThread (ps ! i) (l, t)))
      else interleave sched (ps, l, t))"

section \<open>Header lines\<close>

lemma addHeaders_calls: "addHeaders key vs t = t\<lparr>calls := calls t @ map (AddHeader key) vs\<rparr>"
  by (induction vs arbitrary: t) (simp_all add: emit_def)

lemma split_nonempty: "split sep s \<noteq> []"
  by (induction s) simp_all

lemma join_split: "join sep (split sep s) = s"
proof (induction s)
  case Nil
  show ?case by simp
next
  case (Cons c cs)
  obtain w ws where sp: "split sep cs = w # ws"
    using split_nonempty [of sep cs] by (cases "split sep cs") auto
  with Cons show ?case by (cases ws) auto
qed

lemma split_no_sep: "w \<in> set (split sep s) \<Longrightarrow> sep \<notin> set w"
proof (induction s arbitrary: w)
  case Nil
  then show ?case by simp
next
  case (Cons c cs)
  obtain v vs where sp: "split sep cs = v # vs"
    using split_nonempty [of sep cs] by (cases "split sep cs") auto
  with Cons show ?case by (auto split: if_splits)
qed

lemma writeHeaders_append: "writeHeaders (hs @ hs') t = writeHeaders hs' (writeHeaders hs t)"
  by (induction hs t rule: writeHeaders.induct) simp_all

text \<open>
  Claim C4, amended. \<open>writeHeaders\<close> handles the entries of the header mapping one after
  the other, in order. An entry whose value is a string yields one header line per
  newline-separated substring, all with the name of the entry, in order: the substrings
  contain no newline and joined by newlines they give the value back. An entry whose value
  is a list yields one header line per element, in order. An entry whose value is neither a
  string nor a list is skipped. No value is rejected.
\<close>

theorem writeHeaders_lines:
  "writeHeaders (hs @ hs') t = writeHeaders hs' (writeHeaders hs t)
   \<and> writeHeaders [(key, Str s)] t
       = t\<lparr>calls := calls t @ map (\<lambda>w. AddHeader key (Str w)) (split newline s)\<rparr>
   \<and> join newline (split newline s) = s
   \<and> (\<forall>w\<in>set (split newline s). newline \<notin> set w)
   \<and> writeHeaders [(key, Arr vs)] t = t\<lparr>calls := calls t @ map (AddHeader key) vs\<rparr>
   \<and> ((\<forall>s'. v \<noteq> Str s') \<and> (\<forall>vs'. v \<noteq> Arr vs') \<longrightarrow> writeHeaders [(key, v)] t = t)"
proof -
  have other: "(\<forall>s'. v \<noteq> Str s') \<and> (\<forall>vs'. v \<noteq> Arr vs') \<longrightarrow> writeHeaders [(key, v)] t = t"
    by (cases v) simp_all
  show ?thesis
    using other
    by (simp add: writeHeaders_append addHeaders_calls join_split split_no_sep comp_def)
qed

theorem writeHeaders_lines_witness:
  "writeHeaders [(''Set-Cookie'', Str ''a=1\<newline>b=2'')]
       \<lparr>asyncStarted = False, committed = False, readiness = [], calls = []\<rparr>
     = \<lparr>asyncStarted = False, committed = False, readiness = [],
        calls = [AddHeader ''Set-Cookie'' (Str ''a=1''), AddHeader ''Set-Cookie'' (Str ''b=2'')]\<rparr>
   \<and> split newline ''a=1\<newline>b=2'' = [''a=1'', ''b=2'']
   \<and> newline \<notin> set ''a=1'' \<and> newline \<notin> set ''b=2''
   \<and> writeHeaders [(''Set-Cookie'', Num (Finite 3))]
       \<lparr>asyncStarted = False, committed = False, readiness = [], calls = []\<rparr>
     = \<lparr>asyncStarted = False, committed = False, readiness = [], calls = []\<rparr>"
  using writeHeaders_lines [of "[]" "[]"
      "\<lparr>asyncStarted = False, committed = False, readiness = [], calls = []\<rparr>"
      "''Set-Cookie''" "''a=1\<newline>b=2''" "[]" "Num (Finite 3)"]
  by (simp add: newline_def)

text \<open>
  A list value is not rejected: committing a response whose \<open>Set-Cookie\<close> header is a list
  of two strings succeeds and adds both header lines.
\<close>

theorem writeHeaders_list_counterexample:
  "commitResponse noCharset latin1
     \<lparr>status = Num (Finite 200), headers = Some [(''Set-Cookie'', Arr [Str ''a=1'', Str ''b=2''])],
      body = Arr []\<rparr>
     \<lparr>asyncStarted = False, committed = False, readiness = [], calls = []\<rparr>
   = (None, \<lparr>asyncStarted = False, committed = False, readiness = [],
             calls = [SetStatus (Num (Finite 200)), AddHeader ''Set-Cookie'' (Str ''a=1''),
                      AddHeader ''Set-Cookie'' (Str ''b=2'')]\<rparr>)"
  by (simp add: commitResponse_def writeResponse_def writeBody_def Headers_contains_def
        skipHeader_def emit_def noCharset_def)

section \<open>Committing a response\<close>

lemma written_append: "written (es @ fs) = written es @ written fs"
  by (induction es rule: written.induct) simp_all

lemma written_addHeaders: "written (calls (addHeaders key vs t)) = written (calls t)"
  by (induction vs arbitrary: t) (simp_all add: emit_def written_append)

lemma written_writeHeaders: "written (calls (writeHeaders hs t)) = written (calls t)"
  by (induction hs t rule: writeHeaders.induct) (simp_all add: written_addHeaders)

lemma writer_not_invalid: "fst (writer enc cs p t) \<noteq> Some (InvalidResponse x)"
  by (cases p) (simp_all split: option.splits)

lemma writeParts_not_invalid: "fst (writeParts enc cs ps t) \<noteq> Some (InvalidResponse x)"
proof (induction ps arbitrary: t)
  case Nil
  show ?case by simp
next
  case (Cons p ps)
  show ?case
  proof (cases "writer enc cs p t")
    case (Pair eo t')
    with Cons writer_not_invalid [of enc cs p t x] show ?thesis
      by (cases eo) auto
  qed
qed

lemma writeBody_not_invalid: "fst (writeBody enc b cs t) \<noteq> Some (InvalidResponse x)"
proof (cases "truthy b \<and> forEach_parts b \<noteq> None")
  case False
  then show ?thesis by (auto simp: writeBody_def)
next
  case True
  obtain eo t' where w: "writeParts enc cs (the (forEach_parts b)) t = (eo, t')"
    by (cases "writeParts enc cs (the (forEach_parts b)) t")
  show ?thesis
  proof (cases eo)
    case None
    with True w writeParts_not_invalid [of enc cs _ t' x] show ?thesis
      by (auto simp: writeBody_def split: option.splits)
  next
    case (Some e)
    with True w writeParts_not_invalid [of enc cs "the (forEach_parts b)" t x] show ?thesis
      by (auto simp: writeBody_def)
  qed
qed

lemma writeBody_not_iterable:
  "forEach_parts b = None \<Longrightarrow> writeBody enc b cs t = (Some (BodyNotIterable b), t)"
  by (simp add: writeBody_def)

text \<open>
  Claim C3, amended. For every response descriptor that lacks its status, its headers or
  its body, \<open>commitResponse\<close> makes no call on the transport, which it leaves as it
  found it, and it throws the invalid-response error carrying the descriptor, unless the
  exchange is already in async mode: then it returns without an error.
\<close>

theorem commitResponse_missing_field:
  assumes "status r = Undefined \<or> headers r = None \<or> body r = Undefined"
  shows "commitResponse charsetOf enc r t =
           (if asyncStarted t then None else Some (InvalidResponse r), t)"
  using assms by (auto simp: commitResponse_def)

theorem commitResponse_missing_field_witness:
  "status \<lparr>status = Undefined, headers = Some [], body = Arr []\<rparr> = Undefined
   \<and> commitResponse noCharset latin1 \<lparr>status = Undefined, headers = Some [], body = Arr []\<rparr>
        \<lparr>asyncStarted = False, committed = False, readiness = [], calls = []\<rparr>
      = (Some (InvalidResponse \<lparr>status = Undefined, headers = Some [], body = Arr []\<rparr>),
         \<lparr>asyncStarted = False, committed = False, readiness = [], calls = []\<rparr>)"
  using commitResponse_missing_field [of "\<lparr>status = Undefined, headers = Some [], body = Arr []\<rparr>"
      noCharset latin1 "\<lparr>asyncStarted = False, committed = False, readiness = [], calls = []\<rparr>"]
  by simp

text \<open>
  In async mode a descriptor without a status is not answered by an error.
\<close>

theorem commitResponse_missing_field_counterexample:
  "status \<lparr>status = Undefined, headers = Some [], body = Arr []\<rparr> = Undefined
   \<and> fst (commitResponse noCharset latin1 \<lparr>status = Undefined, headers = Some [], body = Arr []\<rparr>
        \<lparr>asyncStarted = True, committed = False, readiness = [], calls = []\<rparr>) = None"
  by (simp add: commitResponse_def)

text \<open>
  Claim C10, amended. When the exchange is not in async mode, \<open>commitResponse\<close> tests
  status, headers and body by truthiness: it throws the invalid-response error carrying
  the descriptor, with the transport untouched, exactly when one of the three is falsy,
  as a status 0 or an empty-string body is. In async mode it returns before the test,
  whatever the descriptor: it throws nothing and leaves the transport untouched.
\<close>

theorem commitResponse_truthiness:
  "(asyncStarted t \<longrightarrow> commitResponse charsetOf enc r t = (None, t))
   \<and> (\<not> asyncStarted t \<longrightarrow>
        (commitResponse charsetOf enc r t = (Some (InvalidResponse r), t))
        = (\<not> truthy (status r) \<or> headers r = None \<or> \<not> truthy (body r)))"
proof (intro conjI impI)
  assume "asyncStarted t"
  then show "commitResponse charsetOf enc r t = (None, t)"
    by (simp add: commitResponse_def)
next
  assume sync: "\<not> asyncStarted t"
  show "(commitResponse charsetOf enc r t = (Some (InvalidResponse r), t))
        = (\<not> truthy (status r) \<or> headers r = None \<or> \<not> truthy (body r))"
  proof (cases "\<not> truthy (status r) \<or> headers r = None \<or> \<not> truthy (body r)")
    case True
    with sync show ?thesis by (auto simp: commitResponse_def)
  next
    case False
    have "fst (commitResponse charsetOf enc r t) \<noteq> Some (InvalidResponse r)"
      using False sync writeBody_not_invalid [of enc "body r" _ _ r]
      by (auto simp: commitResponse_def writeResponse_def Let_def)
    with False show ?thesis by (metis fst_conv)
  qed
qed

theorem commitResponse_truthiness_witness:
  "\<not> asyncStarted \<lparr>asyncStarted = False, committed = False, readiness = [], calls = []\<rparr>
   \<and> commitResponse noCharset latin1 \<lparr>status = Num (Finite 0), headers = Some [], body = Arr []\<rparr>
        \<lparr>asyncStarted = False, committed = False, readiness = [], calls = []\<rparr>
      = (Some (InvalidResponse \<lparr>status = Num (Finite 0), headers = Some [], body = Arr []\<rparr>),
         \<lparr>asyncStarted = False, committed = False, readiness = [], calls = []\<rparr>)
   \<and> commitResponse noCharset latin1 \<lparr>status = Num (Finite 200), headers = Some [], body = Str []\<rparr>
        \<lparr>asyncStarted = False, committed = False, readiness = [], calls = []\<rparr>
      = (Some (InvalidResponse \<lparr>status = Num (Finite 200), headers = Some [], body = Str []\<rparr>),
         \<lparr>asyncStarted = False, committed = False, readiness = [], calls = []\<rparr>)
   \<and> asyncStarted \<lparr>asyncStarted = True, committed = False, readiness = [], calls = []\<rparr>
   \<and> commitResponse noCharset latin1 \<lparr>status = Num (Finite 200), headers = Some [], body = Str []\<rparr>
        \<lparr>asyncStarted = True, committed = False, readiness = [], calls = []\<rparr>
      = (None, \<lparr>asyncStarted = True, committed = False, readiness = [], calls = []\<rparr>)"
  using commitResponse_truthiness [where
      t = "\<lparr>asyncStarted = False, committed = False, readiness = [], calls = []\<rparr>"
      and charsetOf = noCharset and enc = latin1
      and r = "\<lparr>status = Num (Finite 0), headers = Some [], body = Arr []\<rparr>"]
    commitResponse_truthiness [where
      t = "\<lparr>asyncStarted = False, committed = False, readiness = [], calls = []\<rparr>"
      and charsetOf = noCharset and enc = latin1
      and r = "\<lparr>status = Num (Finite 200), headers = Some [], body = Str []\<rparr>"]
    commitResponse_truthiness [where
      t = "\<lparr>asyncStarted = True, committed = False, readiness = [], calls = []\<rparr>"
      and charsetOf = noCharset and enc = latin1
      and r = "\<lparr>status = Num (Finite 200), headers = Some [], body = Str []\<rparr>"]
  by simp

text \<open>
  In async mode a descriptor with status 0 is neither rejected nor committed.
\<close>

theorem commitResponse_truthiness_counterexample:
  "truthy (status \<lparr>status = Num (Finite 0), headers = Some [], body = Arr []\<rparr>) = False
   \<and> commitResponse noCharset latin1 \<lparr>status = Num (Finite 0), headers = Some [], body = Arr []\<rparr>
        \<lparr>asyncStarted = True, committed = False, readiness = [], calls = []\<rparr>
      = (None, \<lparr>asyncStarted = True, committed = False, readiness = [], calls = []\<rparr>)"
  by (simp add: commitResponse_def)

text \<open>
  Claim C7. For every response descriptor whose headers contain the header
  \<open>X-JSGI-Skip-Response\<close>, with any value, \<open>commitResponse\<close> leaves the transport
  exactly as it found it: no status, header or body call is made. When the descriptor is
  valid otherwise, the call returns without an error.
\<close>

theorem commitResponse_skip:
  assumes "headers r = Some hs" and "(skipHeader, v) \<in> set hs"
  shows "snd (commitResponse charsetOf enc r t) = t
         \<and> (truthy (status r) \<and> truthy (body r) \<longrightarrow> commitResponse charsetOf enc r t = (None, t))"
proof -
  have "Headers_contains hs skipHeader"
    using assms(2) by (force simp: Headers_contains_def)
  with assms(1) show ?thesis by (simp add: commitResponse_def)
qed

theorem commitResponse_skip_witness:
  "headers \<lparr>status = Num (Finite 200), headers = Some [(skipHeader, Str ''true'')], body = Arr [Str ''x'']\<rparr>
     = Some [(skipHeader, Str ''true'')]
   \<and> (skipHeader, Str ''true'') \<in> set [(skipHeader, Str ''true'')]
   \<and> commitResponse noCharset latin1
        \<lparr>status = Num (Finite 200), headers = Some [(skipHeader, Str ''true'')], body = Arr [Str ''x'']\<rparr>
        \<lparr>asyncStarted = False, committed = False, readiness = [], calls = []\<rparr>
      = (None, \<lparr>asyncStarted = False, committed = False, readiness = [], calls = []\<rparr>)"
  using commitResponse_skip [of
      "\<lparr>status = Num (Finite 200), headers = Some [(skipHeader, Str ''true'')], body = Arr [Str ''x'']\<rparr>"
      "[(skipHeader, Str ''true'')]" "Str ''true''" noCharset latin1
      "\<lparr>asyncStarted = False, committed = False, readiness = [], calls = []\<rparr>"]
  by simp

text \<open>
  Claim C8, amended. For every response descriptor whose body has no \<open>forEach\<close>
  function, \<open>commitResponse\<close> writes no byte to the output channel. It throws the
  body-not-iterable error carrying the body, after the status and the header lines have
  been set, when the exchange is not in async mode, status, headers and body are truthy,
  the response is not committed and the headers do not contain \<open>X-JSGI-Skip-Response\<close>.
\<close>

theorem commitResponse_body_not_iterable:
  assumes "forEach_parts (body r) = None"
  shows "written (calls (snd (commitResponse charsetOf enc r t))) = written (calls t)
         \<and> (\<not> asyncStarted t \<and> truthy (status r) \<and> headers r = Some hs \<and> truthy (body r)
              \<and> \<not> committed t \<and> \<not> Headers_contains hs skipHeader
            \<longrightarrow> commitResponse charsetOf enc r t
                  = (Some (BodyNotIterable (body r)), writeHeaders hs (emit (SetStatus (status r)) t)))"
  using assms
  by (simp add: commitResponse_def writeResponse_def Let_def writeBody_not_iterable
        written_writeHeaders emit_def written_append)

theorem commitResponse_body_not_iterable_witness:
  "forEach_parts (body \<lparr>status = Num (Finite 200),
        headers = Some [(''Content-Type'', Str ''text/plain'')], body = Str ''hello''\<rparr>) = None
   \<and> commitResponse noCharset latin1
        \<lparr>status = Num (Finite 200), headers = Some [(''Content-Type'', Str ''text/plain'')],
         body = Str ''hello''\<rparr>
        \<lparr>asyncStarted = False, committed = False, readiness = [], calls = []\<rparr>
      = (Some (BodyNotIterable (Str ''hello'')),
         \<lparr>asyncStarted = False, committed = False, readiness = [],
          calls = [SetStatus (Num (Finite 200)), AddHeader ''Content-Type'' (Str ''text/plain'')]\<rparr>)"
  using commitResponse_body_not_iterable [where
      r = "\<lparr>status = Num (Finite 200), headers = Some [(''Content-Type'', Str ''text/plain'')],
        body = Str ''hello''\<rparr>"
      and t = "\<lparr>asyncStarted = False, committed = False, readiness = [], calls = []\<rparr>"
      and hs = "[(''Content-Type'', Str ''text/plain'')]" and charsetOf = noCharset and enc = latin1]
  by (simp add: Headers_contains_def skipHeader_def emit_def newline_def)

text \<open>
  An empty-string body has no \<open>forEach\<close> function, and the error is the invalid-response
  error, not the body-not-iterable one.
\<close>

theorem commitResponse_body_not_iterable_counterexample:
  "forEach_parts (body \<lparr>status = Num (Finite 200), headers = Some [], body = Str ''''\<rparr>) = None
   \<and> fst (commitResponse noCharset latin1 \<lparr>status = Num (Finite 200), headers = Some [], body = Str ''''\<rparr>
        \<lparr>asyncStarted = False, committed = False, readiness = [], calls = []\<rparr>)
      = Some (InvalidResponse \<lparr>status = Num (Finite 200), headers = Some [], body = Str ''''\<rparr>)"
  by (simp add: commitResponse_def)

section \<open>Draining the write queue\<close>

lemma drain_Nil: "drain [] t = ([], t)"
  by (simp add: drain.simps)

lemma drain_not_ready:
  "readiness t = [] \<Longrightarrow> drain (d # q) t = (d # q, t)"
  "readiness t = False # rs \<Longrightarrow> drain (d # q) t = (d # q, t\<lparr>readiness := rs\<rparr>)"
  by (simp_all add: drain.simps [of "d # q"] isReady_def)

lemma drain_ready:
  "readiness t = True # rs \<Longrightarrow>
   drain (d # q) t = drain q (emit (Write d) (t\<lparr>readiness := rs\<rparr>))"
  by (simp add: drain.simps [of "d # q"] isReady_def)

lemma drain_eq:
  "drain q t =
     (drop (min (length q) (readyCount (readiness t))) q,
      t\<lparr>readiness := drop (if length q \<le> readyCount (readiness t) then length q
                            else Suc (readyCount (readiness t))) (readiness t),
        calls := calls t @ map Write (take (min (length q) (readyCount (readiness t))) q)\<rparr>)"
proof (induction q arbitrary: t)
  case Nil
  show ?case by (simp add: drain_Nil)
next
  case (Cons d q)
  show ?case
  proof (cases "readiness t")
    case Nil
    then show ?thesis by (simp add: drain_not_ready readyCount_def)
  next
    case (Cons r rs)
    show ?thesis
    proof (cases r)
      case False
      with Cons show ?thesis by (simp add: drain_not_ready readyCount_def)
    next
      case True
      with Cons have "drain (d # q) t = drain q (emit (Write d) (t\<lparr>readiness := rs\<rparr>))"
        by (simp add: drain_ready)
      also note Cons.IH [of "emit (Write d) (t\<lparr>readiness := rs\<rparr>)"]
      finally show ?thesis using Cons True by (simp add: emit_def readyCount_def)
    qed
  qed
qed

text \<open>
  Claim C5. \<open>onWritePossible\<close> writes the chunks at the head of the queue, one per
  poll that the channel answers ready, in queue order, until the queue is empty or the
  channel answers not ready; the chunks not written stay queued, in order. With
  \<open>autoFlush\<close> it then polls the channel once more and flushes once if the answer is
  ready; without \<open>autoFlush\<close> it neither polls nor flushes.
\<close>

theorem onWritePossible_drains:
  "onWritePossible l t =
     (let q = queue l;
          rs = readiness t;
          k = min (length q) (readyCount rs);
          rs1 = drop (if length q \<le> readyCount rs then length q else Suc (readyCount rs)) rs;
          flushed = (autoFlush l \<and> rs1 \<noteq> [] \<and> hd rs1)
      in (l\<lparr>queue := drop k q\<rparr>,
          t\<lparr>readiness := (if autoFlush l then tl rs1 else rs1),
            calls := calls t @ map Write (take k q) @ (if flushed then [Flush] else [])\<rparr>))"
proof -
  define rs1 where
    "rs1 = drop (if length (queue l) \<le> readyCount (readiness t) then length (queue l)
                 else Suc (readyCount (readiness t))) (readiness t)"
  define t1 where
    "t1 = t\<lparr>readiness := rs1,
            calls := calls t @ map Write (take (min (length (queue l)) (readyCount (readiness t))) (queue l))\<rparr>"
  have d: "drain (queue l) t = (drop (min (length (queue l)) (readyCount (readiness t))) (queue l), t1)"
    unfolding t1_def rs1_def by (rule drain_eq)
  have r: "readiness t1 = rs1"
    by (simp add: t1_def)
  have res: "onWritePossible l t =
      (l\<lparr>queue := drop (min (length (queue l)) (readyCount (readiness t))) (queue l)\<rparr>,
       t\<lparr>readiness := (if autoFlush l then tl rs1 else rs1),
         calls := calls t
           @ map Write (take (min (length (queue l)) (readyCount (readiness t))) (queue l))
           @ (if autoFlush l \<and> rs1 \<noteq> [] \<and> hd rs1 then [Flush] else [])\<rparr>)"
  proof (cases rs1)
    case Nil
    with d r show ?thesis
      by (simp add: onWritePossible_def Let_def isReady_def t1_def)
  next
    case (Cons b bs)
    with d r show ?thesis
      by (cases b) (simp_all add: onWritePossible_def Let_def isReady_def emit_def t1_def)
  qed
  show ?thesis
    unfolding Let_def res rs1_def by (rule refl)
qed

section \<open>Creating an asynchronous response\<close>

text \<open>
  Claim C6, amended. \<open>AsyncResponse\<close> throws the invalid-request error, without a call
  on the transport, when the request is missing or has no transport environment.
  Otherwise it starts async mode and adds its listener; a finite timeout passed
  to it is registered as given, and when the timeout is left out, null or not finite no
  timeout is registered: the default is left to the transport.
\<close>

theorem AsyncResponse_timeout:
  "AsyncResponse None timeout af t = (Inl InvalidRequest, t)
   \<and> AsyncResponse (Some (r\<lparr>env := None\<rparr>)) timeout af t = (Inl InvalidRequest, t)
   \<and> AsyncResponse (Some (r\<lparr>env := Some e\<rparr>)) timeout af t
       = (Inr \<lparr>autoFlushArg = af, listener = None\<rparr>,
          t\<lparr>asyncStarted := True,
            calls := calls t @ [StartAsync]
              @ (case timeout of TimeoutNum (Finite n) \<Rightarrow> [SetTimeout (Finite n)] | _ \<Rightarrow> [])
              @ [AddListener]\<rparr>)
   \<and> AsyncResponse (Some (r\<lparr>env := Some e\<rparr>)) TimeoutOmitted af t
       = (Inr \<lparr>autoFlushArg = af, listener = None\<rparr>,
          t\<lparr>asyncStarted := True, calls := calls t @ [StartAsync, AddListener]\<rparr>)
   \<and> AsyncResponse (Some (r\<lparr>env := Some e\<rparr>)) (TimeoutNum (Finite n)) af t
       = (Inr \<lparr>autoFlushArg = af, listener = None\<rparr>,
          t\<lparr>asyncStarted := True,
            calls := calls t @ [StartAsync, SetTimeout (Finite n), AddListener]\<rparr>)"
  by (simp add: AsyncResponse_def Let_def emit_def split: timeout_arg.splits jsnum.splits)

text \<open>
  Created without a timeout, the handle makes two calls on the transport, and none of them
  registers a timeout of 30000 ms.
\<close>

theorem AsyncResponse_default_timeout_counterexample:
  "calls (snd (AsyncResponse (Some \<lparr>env = Some ServletEnv, input = None, jsgi = None\<rparr>)
       TimeoutOmitted Undefined
       \<lparr>asyncStarted = False, committed = False, readiness = [], calls = []\<rparr>))
   = [StartAsync, AddListener]"
  by (simp add: AsyncResponse_def Let_def emit_def)

section \<open>What is written and what is queued\<close>

lemma written_Writes: "written (map Write bs) = bs"
  by (induction bs) simp_all

lemma drain_fifo:
  "written (calls (snd (drain q t))) @ fst (drain q t) = written (calls t) @ q"
  by (simp add: drain_eq written_append written_Writes)

lemma isReady_calls: "calls (snd (isReady t)) = calls t"
  by (simp add: isReady_def split: list.splits)

lemma onWritePossible_fifo:
  "written (calls (snd (onWritePossible l t))) @ queue (fst (onWritePossible l t))
     = written (calls t) @ queue l"
  using drain_fifo [of "queue l" t]
  by (auto simp: onWritePossible_def Let_def emit_def written_append isReady_calls
        split: prod.splits)

lemma readinessCallback_fifo:
  "written (calls (snd (readinessCallback h t))) @ pending (fst (readinessCallback h t))
     = written (calls t) @ pending h"
proof (cases "listener h")
  case None
  then show ?thesis by (simp add: readinessCallback_def pending_def)
next
  case (Some l)
  with onWritePossible_fifo [of l t] show ?thesis
    by (auto simp: readinessCallback_def pending_def split: prod.splits)
qed

lemma handleWrite_fifo:
  "written (calls (snd (handleWrite conv d enc h t))) @ pending (fst (handleWrite conv d enc h t))
     = written (calls t) @ pending h @ [toBinary conv d enc]"
proof (cases "listener h")
  case None
  then show ?thesis by (simp add: handleWrite_def pending_def emit_def written_append)
next
  case (Some l)
  with onWritePossible_fifo [of "l\<lparr>queue := queue l @ [toBinary conv d enc]\<rparr>" t] show ?thesis
    by (auto simp: handleWrite_def pending_def split: prod.splits)
qed

section \<open>Concurrent writes\<close>

text \<open>A thread that runs alone does what \<open>onWritePossible\<close> does.\<close>

lemma runThread_finish:
  "runThread (FlushCheck, l, t) =
     (if autoFlush l \<and> fst (isReady t) then (l, emit Flush (snd (isReady t)))
      else if autoFlush l then (l, snd (isReady t))
      else (l, t))"
  by (simp add: runThread.simps [of FlushCheck] runThread.simps [of DoFlush]
        runThread.simps [of Done])

lemma runThread_loop:
  "runThread (TestEmpty, l\<lparr>queue := q\<rparr>, t)
     = runThread (FlushCheck, l\<lparr>queue := fst (drain q t)\<rparr>, snd (drain q t))"
proof (induction q arbitrary: t)
  case Nil
  show ?case by (simp add: runThread.simps [of TestEmpty] drain_Nil)
next
  case (Cons d q)
  show ?case
  proof (cases "readiness t")
    case Nil
    then show ?thesis
      by (simp add: runThread.simps [of TestEmpty] runThread.simps [of TestReady]
            drain_not_ready isReady_def)
  next
    case (Cons r rs)
    show ?thesis
    proof (cases r)
      case False
      with Cons show ?thesis
        by (simp add: runThread.simps [of TestEmpty] runThread.simps [of TestReady]
              drain_not_ready isReady_def)
    next
      case True
      with Cons have "runThread (TestEmpty, l\<lparr>queue := d # q\<rparr>, t)
          = runThread (TestEmpty, l\<lparr>queue := q\<rparr>, emit (Write d) (t\<lparr>readiness := rs\<rparr>))"
        by (simp add: runThread.simps [of TestEmpty "l\<lparr>queue := d # q\<rparr>"]
              runThread.simps [of TestReady] runThread.simps [of DoPoll]
              runThread.simps [of "DoWrite d"] isReady_def)
      also note Cons.IH [of "emit (Write d) (t\<lparr>readiness := rs\<rparr>)"]
      finally show ?thesis using Cons True by (simp add: drain_ready)
    qed
  qed
qed

lemma runThread_onWritePossible: "runThread (TestEmpty, l, t) = onWritePossible l t"
  using runThread_loop [where l = l and q = "queue l" and t = t]
  by (simp add: runThread_finish onWritePossible_def Let_def split: prod.splits)

lemma runThread_write:
  "runThread (Enqueue d, l, t) = onWritePossible (l\<lparr>queue := queue l @ [d]\<rparr>) t"
  by (simp add: runThread.simps [of "Enqueue d"] runThread_onWritePossible)

text \<open>Two threads that write one after the other: the chunks reach the channel in order.\<close>

lemma serial_writes_in_order:
  "interleave [0, 0, 0, 0, 0, 0, 0, 1, 1, 1, 1, 1, 1, 1]
     ([Enqueue [1], Enqueue [2]], \<lparr>queue = [], autoFlush = False\<rparr>,
      \<lparr>asyncStarted = True, committed = False, readiness = [True, True], calls = []\<rparr>)
   = ([Done, Done], \<lparr>queue = [], autoFlush = False\<rparr>,
      \<lparr>asyncStarted = True, committed = False, readiness = [],
       calls = [Write [1], Write [2]]\<rparr>)"
  by (simp add: isReady_def emit_def)

text \<open>
  Claim C1 asks that chunks written concurrently from several threads reach the output
  channel once each and in the order in which they were queued. The code does not keep
  the order. Two threads call \<open>write\<close> on a ready channel, the first with the chunk
  \<open>[1]\<close> and the second with the chunk \<open>[2]\<close>. After the first two calls of the
  schedule the queue holds \<open>[1]\<close> before \<open>[2]\<close>. The first thread polls \<open>[1]\<close>, the
  second thread polls \<open>[2]\<close> and writes it, and only then the first thread writes
  \<open>[1]\<close>: both threads finish, the queue is empty, and the channel has received \<open>[2]\<close>
  before \<open>[1]\<close>.
\<close>

theorem concurrent_writes_reorder:
  "interleave [0, 1, 0, 0, 0, 1, 1, 1, 1, 0, 0, 0, 1, 1]
     ([Enqueue [1], Enqueue [2]], \<lparr>queue = [], autoFlush = False\<rparr>,
      \<lparr>asyncStarted = True, committed = False, readiness = [True, True], calls = []\<rparr>)
   = ([Done, Done], \<lparr>queue = [], autoFlush = False\<rparr>,
      \<lparr>asyncStarted = True, committed = False, readiness = [],
       calls = [Write [2], Write [1]]\<rparr>)
   \<and> interleave [0, 1]
     ([Enqueue [1], Enqueue [2]], \<lparr>queue = [], autoFlush = False\<rparr>,
      \<lparr>asyncStarted = True, committed = False, readiness = [True, True], calls = []\<rparr>)
   = ([TestEmpty, TestEmpty], \<lparr>queue = [[1], [2]], autoFlush = False\<rparr>,
      \<lparr>asyncStarted = True, committed = False, readiness = [True, True], calls = []\<rparr>)"
  by (simp add: isReady_def emit_def)

section \<open>Request initialisation and the lazy input stream\<close>

lemma initRequest_initialized: "input r \<noteq> None \<Longrightarrow> initRequest r = (None, r)"
  by (simp add: initRequest_def)

lemma initRequest_input: "input (snd (initRequest r)) \<noteq> None"
  by (simp add: initRequest_def Let_def split: option.splits)

lemma initRequest_not_constructed:
  "\<forall>i. input r \<noteq> Some (Lazy (Some i)) \<Longrightarrow> \<forall>i. input (snd (initRequest r)) \<noteq> Some (Lazy (Some i))"
  by (simp add: initRequest_def Let_def split: option.splits)

lemma run_memo:
  "input r = Some (Lazy (Some i)) \<Longrightarrow> run ops (r, n) = (replicate (count_list ops Read) i, r, n)"
proof (induction ops)
  case Nil
  show ?case by simp
next
  case (Cons op ops)
  then show ?case
    by (cases op) (simp_all add: initRequest_def readInput_def)
qed

lemma run_fresh:
  "\<forall>i. input r \<noteq> Some (Lazy (Some i)) \<Longrightarrow>
   snd (snd (run ops (r, n))) \<le> Suc n \<and> set (fst (run ops (r, n))) \<subseteq> {n}"
proof (induction ops arbitrary: r)
  case Nil
  show ?case by simp
next
  case (Cons op ops)
  show ?case
  proof (cases op)
    case Init
    with Cons.IH [OF initRequest_not_constructed [OF Cons.prems]] show ?thesis by simp
  next
    case Read
    show ?thesis
    proof (cases "input r")
      case None
      with Read Cons.IH [OF Cons.prems] show ?thesis by (simp add: readInput_def)
    next
      case (Some li)
      then obtain c where li: "input r = Some (Lazy c)" by (cases li) simp
      with Cons.prems have c: "c = None" by (cases c) auto
      show ?thesis
      proof (cases "env r")
        case None
        with Read li c Cons.IH [OF Cons.prems] show ?thesis by (simp add: readInput_def)
      next
        case (Some e)
        have "input (r\<lparr>input := Some (Lazy (Some n))\<rparr>) = Some (Lazy (Some n))" by simp
        note run_memo [OF this, of ops "Suc n"]
        with Read li c Some show ?thesis by (auto simp: readInput_def)
      qed
    qed
  qed
qed

text \<open>
  Claim C9. Initialising a request a second time changes nothing, and initialising a
  request that has its \<open>input\<close> property already changes nothing and throws nothing.
  However initialisations and reads of the input follow one another, the input stream is
  constructed at most once, and all the reads that return a stream return the same one.
\<close>

theorem input_constructed_once:
  "snd (initRequest (snd (initRequest r))) = snd (initRequest r)
   \<and> (input r \<noteq> None \<longrightarrow> initRequest r = (None, r))
   \<and> snd (snd (run ops (r, n))) \<le> Suc n
   \<and> (\<forall>i\<in>set (fst (run ops (r, n))). \<forall>j\<in>set (fst (run ops (r, n))). i = j)"
proof -
  have idem: "snd (initRequest (snd (initRequest r))) = snd (initRequest r)"
    using initRequest_initialized [OF initRequest_input [of r]] by simp
  have once: "snd (snd (run ops (r, n))) \<le> Suc n
      \<and> (\<forall>i\<in>set (fst (run ops (r, n))). \<forall>j\<in>set (fst (run ops (r, n))). i = j)"
  proof (cases "\<exists>i. input r = Some (Lazy (Some i))")
    case True
    then obtain i where "input r = Some (Lazy (Some i))" ..
    from run_memo [OF this, of ops n] show ?thesis by simp
  next
    case False
    then have "\<forall>i. input r \<noteq> Some (Lazy (Some i))" by simp
    from run_fresh [OF this, of ops n] show ?thesis by auto
  qed
  from idem once show ?thesis by (simp add: initRequest_initialized)
qed

theorem input_constructed_once_witness:
  "run [Read, Init, Read, Init, Read]
       (\<lparr>env = Some ServletEnv, input = None, jsgi = Some \<lparr>errors = None\<rparr>\<rparr>, 0)
     = ([0, 0],
        \<lparr>env = Some ServletEnv, input = Some (Lazy (Some 0)), jsgi = Some \<lparr>errors = Some Stderr\<rparr>\<rparr>,
        1)
   \<and> input \<lparr>env = Some ServletEnv, input = Some (Lazy (Some 0)),
             jsgi = Some \<lparr>errors = Some Stderr\<rparr>\<rparr> \<noteq> None
   \<and> initRequest \<lparr>env = Some ServletEnv, input = Some (Lazy (Some 0)),
                   jsgi = Some \<lparr>errors = Some Stderr\<rparr>\<rparr>
     = (None, \<lparr>env = Some ServletEnv, input = Some (Lazy (Some 0)),
               jsgi = Some \<lparr>errors = Some Stderr\<rparr>\<rparr>)"
  using input_constructed_once [of
      "\<lparr>env = Some ServletEnv, input = Some (Lazy (Some 0)), jsgi = Some \<lparr>errors = Some Stderr\<rparr>\<rparr>"
      "[Read, Init, Read, Init, Read]" 0]
  by (simp add: initRequest_def readInput_def)

section \<open>The order of the middleware\<close>

text \<open>
  Claim C2. When the module exports a middleware stack of three items that resolve to the
  functions \<open>m1\<close>, \<open>m2\<close> and \<open>m3\<close>, as functions themselves do, and the export asked
  for resolves to the handler \<open>h\<close>, the application \<open>handleRequest\<close> composes is
  \<open>m1(m2(m3(h)))\<close>: the stack is combined from the right, \<open>m3\<close> is called first, on
  the handler, and the middleware listed first is called last, on all the rest, so that
  it is outermost. An exception of one of the calls ends the composition.
\<close>

theorem middleware_order:
  assumes "require moduleId = Inr m"
    and "export m ''middleware'' = Stack [x1, x2, x3]"
    and "resolve require call x1 = Inr (Fn m1)"
    and "resolve require call x2 = Inr (Fn m2)"
    and "resolve require call x3 = Inr (Fn m3)"
    and "resolve require call (export m name) = Inr h"
  shows "handleRequest_app require call moduleId (FunctionName name) =
           (case call m3 h of
              Inl e \<Rightarrow> Inl e
            | Inr a3 \<Rightarrow> (case call m2 a3 of Inl e \<Rightarrow> Inl e | Inr a2 \<Rightarrow> call m1 a2))"
  using assms by (simp add: handleRequest_app_def split: sum.splits)

theorem middleware_order_witness:
  "sampleRequire ''main''
     = Inr [(''app'', Fn ''h''), (''middleware'', Stack [Fn ''m1'', Fn ''m2'', Fn ''m3''])]
   \<and> resolve sampleRequire wrapCall (Fn ''m1'') = Inr (Fn ''m1'')
   \<and> handleRequest_app sampleRequire wrapCall ''main'' (FunctionName ''app'')
     = Inr (Fn ''m1(m2(m3(h)))'')"
  using middleware_order [where require = sampleRequire and moduleId = "''main''"
      and m = "[(''app'', Fn ''h''), (''middleware'', Stack [Fn ''m1'', Fn ''m2'', Fn ''m3''])]"
      and name = "''app''" and h = "Fn ''h''" and call = wrapCall
      and ?x1.0 = "Fn ''m1''" and ?x2.0 = "Fn ''m2''" and ?x3.0 = "Fn ''m3''"
      and ?m1.0 = "''m1''" and ?m2.0 = "''m2''" and ?m3.0 = "''m3''"]
  by (simp add: sampleRequire_def)

end
